theory Spec2Isabelle
  imports Main
begin

section \<open>OpenNero: the logging facility (core/Log.cpp) and SceneObject::hasMesh\<close>

subsection \<open>Data model of core/Log.cpp\<close>

text \<open>
  A \<open>const char*\<close> argument is either NULL or a string; an \<open>ILogConnectionPtr\<close> is a
  shared pointer, either NULL or the address of a live connection object (a shared
  pointer never dangles, so the object store is total on addresses).
\<close>

type_synonym c_str = "string option"

type_synonym addr = nat

type_synonym ILogConnectionPtr = "addr option"

type_synonym ILogConnectionVector = "ILogConnectionPtr list"

text \<open>
  \<open>FilterList\<close> is declared in Log.h, which is not among the sources; the code only
  iterates over it, assigns it and compares its elements with a message type by string
  content, so it is taken as a sequence of strings.
\<close>

type_synonym FilterList = "string list"

datatype ostream = std_cout

text \<open>
  The two connection classes that LogSystemInit constructs, with the arguments of their
  constructors.
\<close>

datatype ILogConnection =
    FileStreamConnection string string
  | StreamLogConnection string ostream

text \<open>
  Modelled from the spec: LogConnections.h, which declares the connection classes and
  \<open>getConnectionName\<close>, is missing. A connection is "named" by the first argument of its
  constructor, and \<open>getConnectionName\<close> returns that name.
\<close>

fun getConnectionName :: "ILogConnection \<Rightarrow> string" where
  "getConnectionName (FileStreamConnection name file) = name"
| "getConnectionName (StreamLogConnection name strm) = name"

text \<open>
  The pointer to a member method of ILogConnection (\<open>MemberLogFunc\<close>) that selects the
  severity of a message.
\<close>

datatype MemberLogFunc =
    ILogConnection_LogDebug
  | ILogConnection_LogMsg
  | ILogConnection_LogWarning
  | ILogConnection_LogError

text \<open>
  What a connection does with a message is outside Log.cpp. The model records every
  call \<open>((*c).*func)(msg)\<close> made on a connection: the address of the connection, the
  member function and the message, in the order the calls are made.
\<close>

type_synonym delivery = "addr \<times> MemberLogFunc \<times> c_str"

text \<open>
  The state: the two static variables of the namespace, the store of connection objects
  with its allocation pointer, and the calls made on connections so far.
\<close>

record log_state =
  sLogConnections :: ILogConnectionVector
  sFilterList :: FilterList
  heap :: "addr \<Rightarrow> ILogConnection"
  nextAddr :: addr
  delivered :: "delivery list"

text \<open>
  \<open>Assert( *itr )\<close> on a NULL element of the vector, and the dereference of a NULL
  element in \<open>LogUtil::find\<close>, are the two ways a logging call can fail.
\<close>

datatype log_error = AssertFailed | NullDereference

subsection \<open>LogUtil\<close>

text \<open>
  \<open>LogUtil::find\<close>: the first connection of the vector whose name equals
  \<open>connectionName\<close>, the NULL pointer when there is none. Every element visited is
  dereferenced without a check.
\<close>

fun LogUtil_find :: "(addr \<Rightarrow> ILogConnection) \<Rightarrow> ILogConnectionVector \<Rightarrow> string
    \<Rightarrow> log_error + ILogConnectionPtr" where
  "LogUtil_find h [] connectionName = Inr None"
| "LogUtil_find h (p # ps) connectionName =
     (case p of
        None \<Rightarrow> Inl NullDereference
      | Some a \<Rightarrow>
          if getConnectionName (h a) = connectionName then Inr p
          else LogUtil_find h ps connectionName)"

text \<open>
  The broadcast loop of \<open>OutputToLogFunc\<close> (lines 61 to 73): every element is asserted
  to be non-NULL, then the member function is called on it with the message.
\<close>

fun broadcast :: "MemberLogFunc \<Rightarrow> c_str \<Rightarrow> ILogConnectionVector \<Rightarrow> delivery list
    \<Rightarrow> log_error + delivery list" where
  "broadcast func msg [] out = Inr out"
| "broadcast func msg (p # ps) out =
     (case p of
        None \<Rightarrow> Inl AssertFailed
      | Some a \<Rightarrow> broadcast func msg ps (out @ [(a, func, msg)]))"

definition OutputToLogFunc :: "MemberLogFunc \<Rightarrow> c_str \<Rightarrow> c_str \<Rightarrow> c_str \<Rightarrow> log_state
    \<Rightarrow> log_error + log_state" where
  "OutputToLogFunc func msgType connectionName msg st =
     (if (case msgType of
            None \<Rightarrow> False
          | Some t \<Rightarrow> t \<in> set (sFilterList st))
      then Inr st
      else
        (case connectionName of
           None \<Rightarrow>
             (case broadcast func msg (sLogConnections st) (delivered st) of
                Inl e \<Rightarrow> Inl e
              | Inr out \<Rightarrow> Inr (st\<lparr>delivered := out\<rparr>))
         | Some n \<Rightarrow>
             (case LogUtil_find (heap st) (sLogConnections st) n of
                Inl e \<Rightarrow> Inl e
              | Inr None \<Rightarrow> Inr st
              | Inr (Some c) \<Rightarrow>
                  Inr (st\<lparr>delivered := delivered st @ [(c, func, msg)]\<rparr>))))"

subsection \<open>Connections\<close>

definition AddLogConnection :: "ILogConnectionPtr \<Rightarrow> log_state \<Rightarrow> log_state" where
  "AddLogConnection conn st =
     (if conn \<noteq> None then st\<lparr>sLogConnections := sLogConnections st @ [conn]\<rparr> else st)"

text \<open>
  \<open>std::remove\<close> belongs to the standard library, not to the repository. It finds the
  first element equal to the value and, from there on, assigns every element that
  differs from the value to the next free slot, \<open>*result = *first\<close>; the container is
  never resized. What the assignment leaves in the slot it reads is the library's choice,
  and it is a parameter of the model: a library from before C++11 copies, so the slot
  keeps its pointer; a library since C++11 moves, \<open>*result = std::move(*first)\<close>, and a
  moved-from shared pointer is NULL.
\<close>

datatype assignment = copy_assign | move_assign

definition assign_from :: "assignment \<Rightarrow> 'a option list \<Rightarrow> nat \<Rightarrow> nat \<Rightarrow> 'a option list" where
  "assign_from asg xs result first =
     (case asg of
        copy_assign \<Rightarrow> xs[result := xs ! first]
      | move_assign \<Rightarrow>
          if result = first then xs else (xs[result := xs ! first])[first := None])"

text \<open>\<open>remove_loop asg xs v result first\<close> is the loop, with the two iterators as indices.\<close>

function remove_loop :: "assignment \<Rightarrow> 'a option list \<Rightarrow> 'a option \<Rightarrow> nat \<Rightarrow> nat
    \<Rightarrow> 'a option list" where
  "remove_loop asg xs v result first =
     (if first < length xs then
        (if xs ! first \<noteq> v
         then remove_loop asg (assign_from asg xs result first) v (Suc result) (Suc first)
         else remove_loop asg xs v result (Suc first))
      else xs)"
  by pat_completeness auto
termination
  by (relation "measure (\<lambda>(asg, xs, v, result, first). length xs - first)")
     (auto simp: assign_from_def split: assignment.splits)

declare remove_loop.simps [simp del]

definition std_find_index :: "'a list \<Rightarrow> 'a \<Rightarrow> nat" where
  "std_find_index xs v = length (takeWhile (\<lambda>x. x \<noteq> v) xs)"

definition std_remove :: "assignment \<Rightarrow> 'a option list \<Rightarrow> 'a option \<Rightarrow> 'a option list" where
  "std_remove asg xs v =
     (let first = std_find_index xs v
      in if first = length xs then xs else remove_loop asg xs v first (Suc first))"

text \<open>The iterator that \<open>std::remove\<close> returns is discarded; nothing is erased.\<close>

definition RemoveLogConnection :: "assignment \<Rightarrow> ILogConnectionPtr \<Rightarrow> log_state \<Rightarrow> log_state" where
  "RemoveLogConnection asg conn st =
     st\<lparr>sLogConnections := std_remove asg (sLogConnections st) conn\<rparr>"

subsection \<open>The four logging functions\<close>

definition LogDebug :: "c_str \<Rightarrow> c_str \<Rightarrow> c_str \<Rightarrow> log_state \<Rightarrow> log_error + log_state" where
  "LogDebug type connectionName msg = OutputToLogFunc ILogConnection_LogDebug type connectionName msg"

definition LogMsg :: "c_str \<Rightarrow> c_str \<Rightarrow> c_str \<Rightarrow> log_state \<Rightarrow> log_error + log_state" where
  "LogMsg type connectionName msg = OutputToLogFunc ILogConnection_LogMsg type connectionName msg"

definition LogWarning :: "c_str \<Rightarrow> c_str \<Rightarrow> c_str \<Rightarrow> log_state \<Rightarrow> log_error + log_state" where
  "LogWarning type connectionName msg = OutputToLogFunc ILogConnection_LogWarning type connectionName msg"

definition LogError :: "c_str \<Rightarrow> c_str \<Rightarrow> c_str \<Rightarrow> log_state \<Rightarrow> log_error + log_state" where
  "LogError type connectionName msg = OutputToLogFunc ILogConnection_LogError type connectionName msg"

text \<open>
  The four logging functions, each with the member function it hands to
  \<open>OutputToLogFunc\<close> (lines 112 to 142).
\<close>

definition logging_functions ::
  "((c_str \<Rightarrow> c_str \<Rightarrow> c_str \<Rightarrow> log_state \<Rightarrow> log_error + log_state) \<times> MemberLogFunc) list" where
  "logging_functions =
     [(LogDebug, ILogConnection_LogDebug),
      (LogMsg, ILogConnection_LogMsg),
      (LogWarning, ILogConnection_LogWarning),
      (LogError, ILogConnection_LogError)]"

subsection \<open>Set-up and shutdown\<close>

text \<open>\<open>new\<close>: construct an object at the next free address and return its address.\<close>

definition new_connection :: "ILogConnection \<Rightarrow> log_state \<Rightarrow> ILogConnectionPtr \<times> log_state" where
  "new_connection obj st =
     (Some (nextAddr st),
      st\<lparr>heap := (heap st)(nextAddr st := obj), nextAddr := Suc (nextAddr st)\<rparr>)"

definition LogSystemInit :: "log_state \<Rightarrow> log_state" where
  "LogSystemInit st =
     (let (fileLog, st1) = new_connection (FileStreamConnection ''nero_file_log'' ''nero_log.txt'') st;
          (stdioLog, st2) = new_connection (StreamLogConnection ''console_log'' std_cout) st1;
          st3 = AddLogConnection fileLog st2
      in AddLogConnection stdioLog st3)"

definition LogSystemSpecifyFilters :: "FilterList \<Rightarrow> log_state \<Rightarrow> log_state" where
  "LogSystemSpecifyFilters flist st = st\<lparr>sFilterList := flist\<rparr>"

definition LogSystemShutdown :: "log_state \<Rightarrow> log_state" where
  "LogSystemShutdown st = st\<lparr>sLogConnections := []\<rparr>"

subsection \<open>Programs over the interface\<close>

text \<open>
  A client of the namespace can only call its functions. The static vectors start
  empty; \<open>run\<close> performs a sequence of calls and stops at the first failure. The
  assignment of the library's \<open>std::remove\<close> is fixed for a run.
\<close>

datatype log_call =
    CallAddLogConnection ILogConnectionPtr
  | CallRemoveLogConnection ILogConnectionPtr
  | CallLog MemberLogFunc c_str c_str c_str
  | CallLogSystemInit
  | CallLogSystemSpecifyFilters FilterList
  | CallLogSystemShutdown

fun exec :: "assignment \<Rightarrow> log_call \<Rightarrow> log_state \<Rightarrow> log_error + log_state" where
  "exec asg (CallAddLogConnection conn) st = Inr (AddLogConnection conn st)"
| "exec asg (CallRemoveLogConnection conn) st = Inr (RemoveLogConnection asg conn st)"
| "exec asg (CallLog func type connectionName msg) st =
     OutputToLogFunc func type connectionName msg st"
| "exec asg CallLogSystemInit st = Inr (LogSystemInit st)"
| "exec asg (CallLogSystemSpecifyFilters flist) st = Inr (LogSystemSpecifyFilters flist st)"
| "exec asg CallLogSystemShutdown st = Inr (LogSystemShutdown st)"

fun run :: "assignment \<Rightarrow> log_call list \<Rightarrow> log_state \<Rightarrow> log_error + log_state" where
  "run asg [] st = Inr st"
| "run asg (c # cs) st = (case exec asg c st of Inl e \<Rightarrow> Inl e | Inr st' \<Rightarrow> run asg cs st')"

definition initial_state :: "(addr \<Rightarrow> ILogConnection) \<Rightarrow> log_state" where
  "initial_state h =
     \<lparr>sLogConnections = [], sFilterList = [], heap = h, nextAddr = 0, delivered = []\<rparr>"

subsection \<open>render/SceneObject.h\<close>

text \<open>The node pointers of a SceneObject; each is NULL or the address of a scene node.\<close>

record SceneObject =
  mSceneNode :: "addr option"
  mAniSceneNode :: "addr option"
  mTerrSceneNode :: "addr option"
  mParticleSystemNode :: "addr option"
  mTextNode :: "addr option"

definition hasMesh :: "SceneObject \<Rightarrow> bool" where
  "hasMesh so = (mTerrSceneNode so \<noteq> None)"

subsection \<open>Concrete states\<close>

text \<open>
  The state after \<open>LogSystemInit\<close> on empty vectors, with the message type \<open>ai\<close>
  filtered: the file connection at address 0, the console connection at address 1.
\<close>

definition example_state :: log_state where
  "example_state =
     \<lparr>sLogConnections = [Some 0, Some 1],
      sFilterList = [''ai''],
      heap = (\<lambda>a. if a = 0 then FileStreamConnection ''nero_file_log'' ''nero_log.txt''
                   else StreamLogConnection ''console_log'' std_cout),
      nextAddr = 2,
      delivered = []\<rparr>"

text \<open>A scene object whose only node is an animated mesh node.\<close>

definition animated_only :: SceneObject where
  "animated_only =
     \<lparr>mSceneNode = Some 7, mAniSceneNode = Some 7, mTerrSceneNode = None,
      mParticleSystemNode = None, mTextNode = None\<rparr>"

section \<open>Auxiliary facts\<close>

lemma logging_functions_unfold:
  "(L, func) \<in> set logging_functions \<Longrightarrow> L = OutputToLogFunc func"
  by (auto simp: logging_functions_def LogDebug_def LogMsg_def LogWarning_def LogError_def fun_eq_iff)

lemma broadcast_map_Some:
  "broadcast func msg (map Some cs) out = Inr (out @ map (\<lambda>c. (c, func, msg)) cs)"
  by (induction cs arbitrary: out) simp_all

lemma broadcast_no_null:
  "None \<notin> set ps \<Longrightarrow> \<exists>out'. broadcast func msg ps out = Inr out'"
proof (induction ps arbitrary: out)
  case Nil
  show ?case by simp
next
  case (Cons p ps)
  then show ?case by (cases p) auto
qed



lemma LogUtil_find_no_null:
  "None \<notin> set ps \<Longrightarrow> \<exists>r. LogUtil_find h ps n = Inr r"
proof (induction ps)
  case Nil
  show ?case by simp
next
  case (Cons p ps)
  then show ?case by (cases p) auto
qed

lemma length_assign_from: "length (assign_from asg xs result first) = length xs"
  by (simp add: assign_from_def split: assignment.splits)

lemma take_assign_from:
  "result < first \<Longrightarrow> first < length xs \<Longrightarrow>
   take (Suc result) (assign_from asg xs result first) = take result xs @ [xs ! first]"
  by (cases asg) (simp_all add: assign_from_def take_Suc_conv_app_nth)

lemma drop_assign_from:
  "result < first \<Longrightarrow> drop (Suc first) (assign_from asg xs result first) = drop (Suc first) xs"
  by (cases asg) (simp_all add: assign_from_def)

lemma length_remove_loop: "length (remove_loop asg xs v result first) = length xs"
proof (induction asg xs v result first rule: remove_loop.induct)
  case (1 asg xs v result first)
  show ?case
  proof (cases "first < length xs")
    case True
    with 1 show ?thesis
      by (subst remove_loop.simps) (simp add: length_assign_from split: if_splits)
  next
    case False
    then show ?thesis by (subst remove_loop.simps) simp
  qed
qed

lemma length_std_remove: "length (std_remove asg xs v) = length xs"
  by (simp add: std_remove_def Let_def length_remove_loop)

lemma std_remove_singleton: "std_remove asg [x] v = [x]"
  by (simp add: std_remove_def std_find_index_def Let_def remove_loop.simps)

text \<open>
  Whatever the assignment, the loop meets what the standard requires of \<open>std::remove\<close>:
  the elements that differ from the value stand at the front, in their order.
\<close>

lemma remove_loop_front:
  "result < first \<Longrightarrow> first \<le> length xs \<Longrightarrow>
   take (result + length (filter (\<lambda>x. x \<noteq> v) (drop first xs)))
        (remove_loop asg xs v result first) =
     take result xs @ filter (\<lambda>x. x \<noteq> v) (drop first xs)"
proof (induction asg xs v result first rule: remove_loop.induct)
  case (1 asg xs v result first)
  show ?case
  proof (cases "first < length xs")
    case outer: True
    then have d: "drop first xs = xs ! first # drop (Suc first) xs"
      by (simp add: Cons_nth_drop_Suc)
    show ?thesis
    proof (cases "xs ! first \<noteq> v")
      case True
      let ?ys = "assign_from asg xs result first"
      have "take (Suc result + length (filter (\<lambda>x. x \<noteq> v) (drop (Suc first) ?ys)))
              (remove_loop asg ?ys v (Suc result) (Suc first)) =
            take (Suc result) ?ys @ filter (\<lambda>x. x \<noteq> v) (drop (Suc first) ?ys)"
        using 1(1) [OF outer True] 1(3) outer by (simp add: length_assign_from)
      then have "take (Suc result + length (filter (\<lambda>x. x \<noteq> v) (drop (Suc first) xs)))
              (remove_loop asg ?ys v (Suc result) (Suc first)) =
            take result xs @ xs ! first # filter (\<lambda>x. x \<noteq> v) (drop (Suc first) xs)"
        using 1(3) outer by (simp add: take_assign_from drop_assign_from)
      then show ?thesis
        using outer True by (subst remove_loop.simps) (simp add: d)
    next
      case False
      have "take (result + length (filter (\<lambda>x. x \<noteq> v) (drop (Suc first) xs)))
              (remove_loop asg xs v result (Suc first)) =
            take result xs @ filter (\<lambda>x. x \<noteq> v) (drop (Suc first) xs)"
        using 1(2) [OF outer False] 1(3) outer by simp
      then show ?thesis
        using outer False by (subst remove_loop.simps) (simp add: d)
    qed
  next
    case False
    with 1(4) have "first = length xs" by simp
    then show ?thesis by (subst remove_loop.simps) simp
  qed
qed

lemma std_remove_front:
  "take (length (filter (\<lambda>x. x \<noteq> v) xs)) (std_remove asg xs v) = filter (\<lambda>x. x \<noteq> v) xs"
proof -
  let ?P = "\<lambda>x. x \<noteq> v"
  define first where "first = length (takeWhile ?P xs)"
  have tw: "takeWhile ?P xs = take first xs"
    unfolding first_def by (rule takeWhile_eq_take)
  have le: "first \<le> length xs"
    unfolding first_def by (rule length_takeWhile_le)
  have kept: "filter ?P (take first xs) = take first xs"
    using tw by (metis filter_id_conv set_takeWhileD)
  have "filter ?P xs = filter ?P (take first xs @ drop first xs)"
    by simp
  then have split: "filter ?P xs = take first xs @ filter ?P (drop first xs)"
    unfolding filter_append kept .
  have sr: "std_remove asg xs v =
      (if first = length xs then xs else remove_loop asg xs v first (Suc first))"
    by (simp add: std_remove_def std_find_index_def first_def Let_def)
  show ?thesis
  proof (cases "first = length xs")
    case True
    then have "filter ?P xs = xs" using split by simp
    then show ?thesis using True sr by simp
  next
    case False
    then have lt: "first < length xs" using le by simp
    have hit: "\<not> ?P (xs ! first)"
      using lt unfolding first_def by (rule nth_length_takeWhile)
    have d: "drop first xs = xs ! first # drop (Suc first) xs"
      using lt by (simp add: Cons_nth_drop_Suc)
    have f: "filter ?P xs = take first xs @ filter ?P (drop (Suc first) xs)"
      using split hit d by simp
    have len: "length (filter ?P xs) = first + length (filter ?P (drop (Suc first) xs))"
      using f le by (metis length_append length_take min.absorb2)
    have "take (first + length (filter ?P (drop (Suc first) xs)))
            (remove_loop asg xs v first (Suc first)) =
          take first xs @ filter ?P (drop (Suc first) xs)"
      using lt by (intro remove_loop_front) simp_all
    then show ?thesis
      using False f sr len by simp
  qed
qed

text \<open>
  With copy assignment every slot of the result holds an element of the argument. With
  move assignment it need not, as the lemma on the two connections of
  \<open>example_state\<close> shows.
\<close>

lemma set_remove_loop_copy: "set (remove_loop copy_assign xs v result first) \<subseteq> set xs"
proof (induction copy_assign xs v result first rule: remove_loop.induct)
  case (1 xs v result first)
  show ?case
  proof (cases "first < length xs")
    case outer: True
    show ?thesis
    proof (cases "xs ! first \<noteq> v")
      case True
      let ?ys = "assign_from copy_assign xs result first"
      have "set ?ys \<subseteq> insert (xs ! first) (set xs)"
        unfolding assign_from_def by (simp add: set_update_subset_insert)
      also have "\<dots> = set xs" using outer by (simp add: insert_absorb)
      finally have "set ?ys \<subseteq> set xs" .
      moreover have "set (remove_loop copy_assign ?ys v (Suc result) (Suc first)) \<subseteq> set ?ys"
        using 1(1) outer True by simp
      ultimately show ?thesis using outer True by (subst remove_loop.simps) auto
    next
      case False
      with 1(2) outer show ?thesis by (subst remove_loop.simps) simp
    qed
  next
    case False
    then show ?thesis by (subst remove_loop.simps) simp
  qed
qed

lemma set_std_remove_copy: "set (std_remove copy_assign xs v) \<subseteq> set xs"
  by (simp add: std_remove_def Let_def set_remove_loop_copy)

lemma RemoveLogConnection_first_of_two:
  "sLogConnections (RemoveLogConnection copy_assign (Some 0) example_state) = [Some 1, Some 1] \<and>
   sLogConnections (RemoveLogConnection move_assign (Some 0) example_state) = [Some 1, None]"
  by (simp add: RemoveLogConnection_def example_state_def std_remove_def std_find_index_def
      Let_def remove_loop.simps assign_from_def)

lemma OutputToLogFunc_filtered:
  "t \<in> set (sFilterList st) \<Longrightarrow> OutputToLogFunc func (Some t) connectionName msg st = Inr st"
  by (simp add: OutputToLogFunc_def)

lemma OutputToLogFunc_broadcast:
  "\<forall>t. msgType = Some t \<longrightarrow> t \<notin> set (sFilterList st) \<Longrightarrow>
   sLogConnections st = map Some conns \<Longrightarrow>
   OutputToLogFunc func msgType None msg st =
     Inr (st\<lparr>delivered := delivered st @ map (\<lambda>c. (c, func, msg)) conns\<rparr>)"
  by (cases msgType) (simp_all add: OutputToLogFunc_def broadcast_map_Some)



lemma OutputToLogFunc_null_type:
  "OutputToLogFunc func None connectionName msg (st\<lparr>sFilterList := flist\<rparr>) =
     map_sum id (\<lambda>s. s\<lparr>sFilterList := flist\<rparr>) (OutputToLogFunc func None connectionName msg st)"
  by (simp add: OutputToLogFunc_def split: option.splits sum.splits)

lemma OutputToLogFunc_no_connections:
  "sLogConnections st = [] \<Longrightarrow> OutputToLogFunc func msgType connectionName msg st = Inr st"
  by (simp add: OutputToLogFunc_def split: option.splits)

text \<open>
  No call but \<open>RemoveLogConnection\<close> can put a NULL pointer into the connection list,
  and \<open>RemoveLogConnection\<close> cannot either when the library copies.
\<close>

lemma exec_preserves_non_null:
  assumes "None \<notin> set (sLogConnections st)"
    and "asg = copy_assign \<or> (\<forall>conn. c \<noteq> CallRemoveLogConnection conn)"
  shows "\<exists>st'. exec asg c st = Inr st' \<and> None \<notin> set (sLogConnections st')"
proof (cases c)
  case (CallAddLogConnection conn)
  with assms show ?thesis by (auto simp: AddLogConnection_def)
next
  case (CallRemoveLogConnection conn)
  with assms(2) have "asg = copy_assign" by simp
  with CallRemoveLogConnection assms(1) set_std_remove_copy [of "sLogConnections st" conn]
  show ?thesis
    by (auto simp: RemoveLogConnection_def)
next
  case (CallLog func type connectionName msg)
  show ?thesis
  proof (cases "case type of None \<Rightarrow> False | Some t \<Rightarrow> t \<in> set (sFilterList st)")
    case True
    with assms CallLog show ?thesis by (simp add: OutputToLogFunc_def)
  next
    case unfiltered: False
    show ?thesis
    proof (cases connectionName)
      case None
      from broadcast_no_null [OF assms(1)] obtain out'
        where "broadcast func msg (sLogConnections st) (delivered st) = Inr out'" by blast
      with assms CallLog unfiltered None show ?thesis by (simp add: OutputToLogFunc_def)
    next
      case (Some n)
      from LogUtil_find_no_null [OF assms(1)] obtain r
        where "LogUtil_find (heap st) (sLogConnections st) n = Inr r" by blast
      with assms CallLog unfiltered Some show ?thesis
        by (cases r) (simp_all add: OutputToLogFunc_def)
    qed
  qed
next
  case CallLogSystemInit
  with assms show ?thesis
    by (simp add: LogSystemInit_def new_connection_def AddLogConnection_def)
next
  case (CallLogSystemSpecifyFilters flist)
  with assms show ?thesis by (simp add: LogSystemSpecifyFilters_def)
next
  case CallLogSystemShutdown
  then show ?thesis by (simp add: LogSystemShutdown_def)
qed

lemma run_preserves_non_null:
  "None \<notin> set (sLogConnections st) \<Longrightarrow>
   asg = copy_assign \<or> (\<forall>conn. CallRemoveLogConnection conn \<notin> set cs) \<Longrightarrow>
   \<exists>st'. run asg cs st = Inr st' \<and> None \<notin> set (sLogConnections st')"
proof (induction cs arbitrary: st)
  case Nil
  then show ?case by simp
next
  case (Cons c cs)
  from Cons.prems(2)
  have here: "asg = copy_assign \<or> (\<forall>conn. c \<noteq> CallRemoveLogConnection conn)"
    and rest: "asg = copy_assign \<or> (\<forall>conn. CallRemoveLogConnection conn \<notin> set cs)"
    by auto
  from exec_preserves_non_null [OF Cons.prems(1) here] obtain st1
    where s1: "exec asg c st = Inr st1" and n1: "None \<notin> set (sLogConnections st1)" by blast
  from Cons.IH [OF n1 rest] s1 show ?case by simp
qed

section \<open>The claims\<close>



text \<open>
  Claim C2. A call of one of the four logging functions with a non-NULL message type
  that is in the filter list returns with the state as it was: no connection is called,
  whether the call is a broadcast or names a connection. With a NULL message type the
  outcome of the call is the same whatever the filter list holds: a NULL type is never
  filtered out.
\<close>

theorem filtered_type_reaches_no_connection:
  assumes "(L, func) \<in> set logging_functions"
  shows "(t \<in> set (sFilterList st) \<longrightarrow> L (Some t) connectionName msg st = Inr st) \<and>
     L None connectionName msg (st\<lparr>sFilterList := flist\<rparr>) =
       map_sum id (\<lambda>s. s\<lparr>sFilterList := flist\<rparr>) (L None connectionName msg st)"
  using logging_functions_unfold [OF assms]
  by (simp add: OutputToLogFunc_filtered OutputToLogFunc_null_type)

theorem filtered_type_reaches_no_connection_witness:
  "(LogWarning, ILogConnection_LogWarning) \<in> set logging_functions \<and>
   ''ai'' \<in> set (sFilterList example_state) \<and>
   LogWarning (Some ''ai'') None (Some ''hello'') example_state = Inr example_state \<and>
   LogWarning (Some ''ai'') (Some ''console_log'') (Some ''hello'') example_state = Inr example_state"
  using filtered_type_reaches_no_connection
    [of LogWarning ILogConnection_LogWarning "''ai''" example_state None "Some ''hello''"]
    filtered_type_reaches_no_connection
    [of LogWarning ILogConnection_LogWarning "''ai''" example_state "Some ''console_log''" "Some ''hello''"]
  by (simp add: logging_functions_def example_state_def)

text \<open>
  Claim C3. After \<open>RemoveLogConnection(conn)\<close> the connection list has as many
  elements as before, for every list and every pointer, whether the library's
  \<open>std::remove\<close> copies or moves. If \<open>conn\<close> was the only registered connection, a
  broadcast that is not filtered after the removal still calls one connection, the
  removed one.
\<close>

theorem RemoveLogConnection_keeps_size:
  assumes "(L, func) \<in> set logging_functions"
  shows "length (sLogConnections (RemoveLogConnection asg conn st)) = length (sLogConnections st) \<and>
     (sLogConnections st = [Some c] \<and> (\<forall>t. msgType = Some t \<longrightarrow> t \<notin> set (sFilterList st)) \<longrightarrow>
        L msgType None msg (RemoveLogConnection asg (Some c) st) =
          Inr ((RemoveLogConnection asg (Some c) st)\<lparr>delivered := delivered st @ [(c, func, msg)]\<rparr>))"
proof (intro conjI impI)
  show "length (sLogConnections (RemoveLogConnection asg conn st)) = length (sLogConnections st)"
    by (simp add: RemoveLogConnection_def length_std_remove)
next
  assume h: "sLogConnections st = [Some c] \<and> (\<forall>t. msgType = Some t \<longrightarrow> t \<notin> set (sFilterList st))"
  let ?st = "RemoveLogConnection asg (Some c) st"
  have conns: "sLogConnections ?st = map Some [c]"
    using h by (simp add: RemoveLogConnection_def std_remove_singleton)
  have flt: "\<forall>t. msgType = Some t \<longrightarrow> t \<notin> set (sFilterList ?st)"
    using h by (simp add: RemoveLogConnection_def)
  have "OutputToLogFunc func msgType None msg ?st =
      Inr (?st\<lparr>delivered := delivered ?st @ map (\<lambda>c. (c, func, msg)) [c]\<rparr>)"
    by (rule OutputToLogFunc_broadcast [OF flt conns])
  then show "L msgType None msg ?st = Inr (?st\<lparr>delivered := delivered st @ [(c, func, msg)]\<rparr>)"
    using logging_functions_unfold [OF assms] by (simp add: RemoveLogConnection_def)
qed

theorem RemoveLogConnection_keeps_size_witness:
  "(LogDebug, ILogConnection_LogDebug) \<in> set logging_functions \<and>
   sLogConnections (example_state\<lparr>sLogConnections := [Some 0]\<rparr>) = [Some 0] \<and>
   length (sLogConnections
     (RemoveLogConnection copy_assign (Some 0) (example_state\<lparr>sLogConnections := [Some 0]\<rparr>))) = 1 \<and>
   length (sLogConnections
     (RemoveLogConnection move_assign (Some 0) (example_state\<lparr>sLogConnections := [Some 0]\<rparr>))) = 1 \<and>
   LogDebug None None (Some ''hello'')
       (RemoveLogConnection copy_assign (Some 0) (example_state\<lparr>sLogConnections := [Some 0]\<rparr>)) =
     Inr ((RemoveLogConnection copy_assign (Some 0) (example_state\<lparr>sLogConnections := [Some 0]\<rparr>))
            \<lparr>delivered := [(0, ILogConnection_LogDebug, Some ''hello'')]\<rparr>) \<and>
   LogDebug None None (Some ''hello'')
       (RemoveLogConnection move_assign (Some 0) (example_state\<lparr>sLogConnections := [Some 0]\<rparr>)) =
     Inr ((RemoveLogConnection move_assign (Some 0) (example_state\<lparr>sLogConnections := [Some 0]\<rparr>))
            \<lparr>delivered := [(0, ILogConnection_LogDebug, Some ''hello'')]\<rparr>)"
  using RemoveLogConnection_keeps_size
    [of LogDebug ILogConnection_LogDebug copy_assign "Some 0"
        "example_state\<lparr>sLogConnections := [Some 0]\<rparr>" 0 None "Some ''hello''"]
    RemoveLogConnection_keeps_size
    [of LogDebug ILogConnection_LogDebug move_assign "Some 0"
        "example_state\<lparr>sLogConnections := [Some 0]\<rparr>" 0 None "Some ''hello''"]
  by (simp add: logging_functions_def example_state_def)



text \<open>
  Claim C5. \<open>LogSystemInit\<close> appends exactly two connections to the connection list,
  keeping the connections that were there: first the file connection constructed with the
  name \<open>nero_file_log\<close> and the file \<open>nero_log.txt\<close>, then the console connection
  constructed with the name \<open>console_log\<close> and \<open>std::cout\<close>. The filter list and the
  calls made so far are untouched.
\<close>

theorem LogSystemInit_appends_file_then_console:
  "sLogConnections (LogSystemInit st) =
     sLogConnections st @ [Some (nextAddr st), Some (Suc (nextAddr st))] \<and>
   heap (LogSystemInit st) (nextAddr st) = FileStreamConnection ''nero_file_log'' ''nero_log.txt'' \<and>
   heap (LogSystemInit st) (Suc (nextAddr st)) = StreamLogConnection ''console_log'' std_cout \<and>
   getConnectionName (heap (LogSystemInit st) (nextAddr st)) = ''nero_file_log'' \<and>
   getConnectionName (heap (LogSystemInit st) (Suc (nextAddr st))) = ''console_log'' \<and>
   sFilterList (LogSystemInit st) = sFilterList st \<and>
   delivered (LogSystemInit st) = delivered st"
  by (simp add: LogSystemInit_def new_connection_def AddLogConnection_def)

text \<open>
  Claim C7. \<open>LogSystemSpecifyFilters(flist)\<close> makes \<open>flist\<close> the filter list and leaves
  the connection list as it was; the state it produces does not depend on the filters
  specified before; and a later call with a non-NULL message type is dropped exactly when
  the type occurs in \<open>flist\<close>, being otherwise handled as an unfiltered call.
\<close>

theorem LogSystemSpecifyFilters_replaces_filters:
  "sFilterList (LogSystemSpecifyFilters flist st) = flist \<and>
   sLogConnections (LogSystemSpecifyFilters flist st) = sLogConnections st \<and>
   LogSystemSpecifyFilters flist (st\<lparr>sFilterList := previous\<rparr>) = LogSystemSpecifyFilters flist st \<and>
   OutputToLogFunc func (Some t) connectionName msg (LogSystemSpecifyFilters flist st) =
     (if t \<in> set flist then Inr (LogSystemSpecifyFilters flist st)
      else OutputToLogFunc func None connectionName msg (LogSystemSpecifyFilters flist st))"
  by (simp add: LogSystemSpecifyFilters_def OutputToLogFunc_def)

text \<open>
  Claim C8. After \<open>LogSystemShutdown\<close> the connection list is empty and the filter
  list is as before; every call of the four logging functions, with any type and any
  connection name, then returns with the state unchanged, so no connection is called. Once
  a connection is added again, a broadcast calls it.
\<close>

theorem LogSystemShutdown_silences_logging:
  "sLogConnections (LogSystemShutdown st) = [] \<and>
   sFilterList (LogSystemShutdown st) = sFilterList st \<and>
   LogDebug type connectionName msg (LogSystemShutdown st) = Inr (LogSystemShutdown st) \<and>
   LogMsg type connectionName msg (LogSystemShutdown st) = Inr (LogSystemShutdown st) \<and>
   LogWarning type connectionName msg (LogSystemShutdown st) = Inr (LogSystemShutdown st) \<and>
   LogError type connectionName msg (LogSystemShutdown st) = Inr (LogSystemShutdown st) \<and>
   LogMsg None None msg (AddLogConnection (Some c) (LogSystemShutdown st)) =
     Inr ((AddLogConnection (Some c) (LogSystemShutdown st))
            \<lparr>delivered := delivered st @ [(c, ILogConnection_LogMsg, msg)]\<rparr>)"
proof -
  have e: "sLogConnections (LogSystemShutdown st) = []"
    by (simp add: LogSystemShutdown_def)
  have a: "sLogConnections (AddLogConnection (Some c) (LogSystemShutdown st)) = map Some [c]"
    by (simp add: AddLogConnection_def LogSystemShutdown_def)
  have "OutputToLogFunc ILogConnection_LogMsg None None msg (AddLogConnection (Some c) (LogSystemShutdown st)) =
     Inr ((AddLogConnection (Some c) (LogSystemShutdown st))
            \<lparr>delivered := delivered (AddLogConnection (Some c) (LogSystemShutdown st))
                 @ map (\<lambda>c. (c, ILogConnection_LogMsg, msg)) [c]\<rparr>)"
    by (rule OutputToLogFunc_broadcast [OF _ a]) simp
  then show ?thesis
    using e
    by (simp add: LogDebug_def LogMsg_def LogWarning_def LogError_def
        OutputToLogFunc_no_connections)
       (simp add: AddLogConnection_def LogSystemShutdown_def)
qed

text \<open>
  Claim C9. That every element of the connection list is non-NULL is what the broadcast
  loop asserts, and AddLogConnection guards it; RemoveLogConnection breaks it, because it
  calls \<open>std::remove\<close> and never erases the slots behind the kept elements. With a
  library whose \<open>std::remove\<close> moves, a client that adds two connections and removes the
  first leaves the list as the second connection followed by a NULL pointer, and the
  next broadcast fails the assertion; the same happens after LogSystemInit when the
  file connection is removed.
\<close>

theorem RemoveLogConnection_leaves_null_pointer:
  "run move_assign
     [CallAddLogConnection (Some 0), CallAddLogConnection (Some 1),
      CallRemoveLogConnection (Some 0)]
     (initial_state (heap example_state)) =
     Inr ((initial_state (heap example_state))\<lparr>sLogConnections := [Some 1, None]\<rparr>) \<and>
   run move_assign
     [CallAddLogConnection (Some 0), CallAddLogConnection (Some 1),
      CallRemoveLogConnection (Some 0),
      CallLog ILogConnection_LogMsg None None (Some ''hello'')]
     (initial_state (heap example_state)) = Inl AssertFailed \<and>
   run move_assign
     [CallLogSystemInit, CallRemoveLogConnection (Some 0),
      CallLog ILogConnection_LogMsg None None (Some ''hello'')]
     (initial_state (heap example_state)) = Inl AssertFailed"
  by (simp add: initial_state_def AddLogConnection_def RemoveLogConnection_def
      LogSystemInit_def new_connection_def OutputToLogFunc_def
      std_remove_def std_find_index_def Let_def remove_loop.simps assign_from_def)

text \<open>
  Claim C10. \<open>hasMesh\<close> is true exactly when the terrain node pointer is non-NULL; its
  value does not depend on the animated mesh node pointer; so a scene object that has an
  animated mesh node and neither a terrain nor a particle system node has no mesh
  according to \<open>hasMesh\<close>.
\<close>

theorem hasMesh_is_terrain_node_only:
  "hasMesh so = (mTerrSceneNode so \<noteq> None) \<and>
   hasMesh (so\<lparr>mAniSceneNode := p\<rparr>) = hasMesh so \<and>
   (mAniSceneNode so \<noteq> None \<and> mTerrSceneNode so = None \<and> mParticleSystemNode so = None
      \<longrightarrow> \<not> hasMesh so)"
  by (simp add: hasMesh_def)

theorem hasMesh_is_terrain_node_only_witness:
  "mAniSceneNode animated_only \<noteq> None \<and> mTerrSceneNode animated_only = None \<and>
   mParticleSystemNode animated_only = None \<and> \<not> hasMesh animated_only"
  using hasMesh_is_terrain_node_only [of animated_only]
  by (simp add: animated_only_def)

end
